theory Spec2Isabelle
  imports Complex_Main "HOL-Library.Code_Target_Nat"
begin

section \<open>JavaScript values used by Money and Odds\<close>

text \<open>
  Both classes compute on JavaScript Numbers and Strings and lean on the implicit
  conversions between them (unary plus, \<^verbatim>\<open>toFixed\<close>, template strings), so the
  embedding starts with those built-ins.

  A Number is NaN, an infinity, negative zero, or a finite value. Finite values are kept
  as exact rationals: arithmetic on them follows IEEE 754 in its special cases (NaN,
  infinities, signed zeros) but does not round the result to 53 bits and does not
  overflow, and a decimal string converts to the value it denotes, not to the nearest
  binary64 value. Every statement below is about this exact-arithmetic reading of the
  code: it agrees with the program wherever the binary64 operations involved are exact,
  as they are on integers below \<open>2\<^sup>5\<^sup>3\<close>, and it says nothing about rounding error or
  overflow. \<open>Fin 0\<close> is positive zero; \<open>NegZero\<close> is the only negative zero.
\<close>

datatype jsnum = NaN | PosInf | NegInf | NegZero | Fin rat

definition val :: "jsnum \<Rightarrow> rat" where
  "val x = (case x of Fin q \<Rightarrow> q | _ \<Rightarrow> 0)"

definition is_nan :: "jsnum \<Rightarrow> bool" where
  "is_nan x = (case x of NaN \<Rightarrow> True | _ \<Rightarrow> False)"

definition is_inf :: "jsnum \<Rightarrow> bool" where
  "is_inf x = (case x of PosInf \<Rightarrow> True | NegInf \<Rightarrow> True | _ \<Rightarrow> False)"

definition is_finite :: "jsnum \<Rightarrow> bool" where
  "is_finite x = (case x of NegZero \<Rightarrow> True | Fin q \<Rightarrow> True | _ \<Rightarrow> False)"

definition is_zero :: "jsnum \<Rightarrow> bool" where
  "is_zero x = (case x of NegZero \<Rightarrow> True | Fin q \<Rightarrow> q = 0 | _ \<Rightarrow> False)"

definition sign_neg :: "jsnum \<Rightarrow> bool" where
  "sign_neg x = (case x of NegInf \<Rightarrow> True | NegZero \<Rightarrow> True | Fin q \<Rightarrow> q < 0 | _ \<Rightarrow> False)"

definition zero_signed :: "bool \<Rightarrow> jsnum" where
  "zero_signed neg = (if neg then NegZero else Fin 0)"

definition inf_signed :: "bool \<Rightarrow> jsnum" where
  "inf_signed neg = (if neg then NegInf else PosInf)"

definition fin_signed :: "bool \<Rightarrow> rat \<Rightarrow> jsnum" where
  "fin_signed neg q = (if q = 0 then zero_signed neg else Fin q)"

text \<open>Unary minus.\<close>

definition js_neg :: "jsnum \<Rightarrow> jsnum" where
  "js_neg x = (case x of NaN \<Rightarrow> NaN | PosInf \<Rightarrow> NegInf | NegInf \<Rightarrow> PosInf
     | NegZero \<Rightarrow> Fin 0 | Fin q \<Rightarrow> fin_signed True (- q))"

text \<open>\<^verbatim>\<open>a + b\<close> on Numbers: the sum of two zeros is negative only when both are.\<close>

definition js_add :: "jsnum \<Rightarrow> jsnum \<Rightarrow> jsnum" where
  "js_add a b =
     (if is_nan a \<or> is_nan b then NaN
      else if is_inf a then (if is_inf b \<and> a \<noteq> b then NaN else a)
      else if is_inf b then b
      else if a = NegZero \<and> b = NegZero then NegZero
      else Fin (val a + val b))"

definition js_sub :: "jsnum \<Rightarrow> jsnum \<Rightarrow> jsnum" where
  "js_sub a b = js_add a (js_neg b)"

definition js_mul :: "jsnum \<Rightarrow> jsnum \<Rightarrow> jsnum" where
  "js_mul a b =
     (if is_nan a \<or> is_nan b then NaN
      else if is_inf a \<or> is_inf b
        then (if is_zero a \<or> is_zero b then NaN else inf_signed (sign_neg a \<noteq> sign_neg b))
      else fin_signed (sign_neg a \<noteq> sign_neg b) (val a * val b))"

definition js_div :: "jsnum \<Rightarrow> jsnum \<Rightarrow> jsnum" where
  "js_div a b =
     (if is_nan a \<or> is_nan b then NaN
      else if is_inf a then (if is_inf b then NaN else inf_signed (sign_neg a \<noteq> sign_neg b))
      else if is_inf b then zero_signed (sign_neg a \<noteq> sign_neg b)
      else if is_zero b
        then (if is_zero a then NaN else inf_signed (sign_neg a \<noteq> sign_neg b))
      else fin_signed (sign_neg a \<noteq> sign_neg b) (val a / val b))"

definition trunc :: "rat \<Rightarrow> int" where
  "trunc q = (if 0 \<le> q then \<lfloor>q\<rfloor> else \<lceil>q\<rceil>)"

text \<open>\<^verbatim>\<open>a % b\<close>: the remainder of the truncated division, with the sign of \<open>a\<close>.\<close>

definition js_mod :: "jsnum \<Rightarrow> jsnum \<Rightarrow> jsnum" where
  "js_mod a b =
     (if is_nan a \<or> is_nan b \<or> is_inf a \<or> is_zero b then NaN
      else if is_inf b then a
      else if is_zero a then a
      else fin_signed (sign_neg a) (val a - val b * of_int (trunc (val a / val b))))"

text \<open>
  Comparisons. \<open>ord_key\<close> places a Number that is not NaN on the extended line; the two
  zeros share a place. Every comparison with NaN is false.
\<close>

definition ord_key :: "jsnum \<Rightarrow> int \<times> rat" where
  "ord_key x = (case x of NegInf \<Rightarrow> (- 1, 0) | PosInf \<Rightarrow> (1, 0) | _ \<Rightarrow> (0, val x))"

definition js_lt :: "jsnum \<Rightarrow> jsnum \<Rightarrow> bool" where
  "js_lt a b =
     (if is_nan a \<or> is_nan b then False
      else fst (ord_key a) < fst (ord_key b)
         \<or> (fst (ord_key a) = fst (ord_key b) \<and> snd (ord_key a) < snd (ord_key b)))"

definition js_gt :: "jsnum \<Rightarrow> jsnum \<Rightarrow> bool" where
  "js_gt a b = js_lt b a"

text \<open>\<^verbatim>\<open>a === b\<close> on two Numbers.\<close>

definition js_eq :: "jsnum \<Rightarrow> jsnum \<Rightarrow> bool" where
  "js_eq a b = (if is_nan a \<or> is_nan b then False else ord_key a = ord_key b)"

definition js_le :: "jsnum \<Rightarrow> jsnum \<Rightarrow> bool" where
  "js_le a b = (js_lt a b \<or> js_eq a b)"

definition js_ge :: "jsnum \<Rightarrow> jsnum \<Rightarrow> bool" where
  "js_ge a b = js_le b a"

text \<open>\<^verbatim>\<open>Math.round\<close>: to the nearest integer, a tie goes up; a result of zero keeps the
  sign of the argument.\<close>

definition Math_round :: "jsnum \<Rightarrow> jsnum" where
  "Math_round x = (case x of Fin q \<Rightarrow> fin_signed (q < 0) (of_int \<lfloor>q + 1 / 2\<rfloor>) | _ \<Rightarrow> x)"

subsection \<open>Strings\<close>

text \<open>
  A String is a list of characters. White space is what \<^verbatim>\<open>trim\<close> and the conversion to
  Number skip: tab, line feed, vertical tab, form feed, carriage return, space and the
  no-break space. Case conversion covers the ASCII letters.
\<close>

definition is_ws :: "char \<Rightarrow> bool" where
  "is_ws c = (c \<in> set [CHR 0x09, CHR 0x0A, CHR 0x0B, CHR 0x0C, CHR 0x0D, CHR 0x20, CHR 0xA0])"

definition trim :: "string \<Rightarrow> string" where
  "trim s = rev (dropWhile is_ws (rev (dropWhile is_ws s)))"

definition toUpperCase_char :: "char \<Rightarrow> char" where
  "toUpperCase_char c =
     (if 97 \<le> (of_char c :: nat) \<and> (of_char c :: nat) \<le> 122
      then char_of ((of_char c :: nat) - 32) else c)"

definition toLowerCase_char :: "char \<Rightarrow> char" where
  "toLowerCase_char c =
     (if 65 \<le> (of_char c :: nat) \<and> (of_char c :: nat) \<le> 90
      then char_of ((of_char c :: nat) + 32) else c)"

definition toUpperCase :: "string \<Rightarrow> string" where
  "toUpperCase s = map toUpperCase_char s"

text \<open>\<^verbatim>\<open>s.split(sep)\<close> for a one-character separator: never the empty list.\<close>

fun split_on :: "char \<Rightarrow> string \<Rightarrow> string list" where
  "split_on sep [] = [[]]"
| "split_on sep (c # cs) =
     (if c = sep then [] # split_on sep cs
      else (case split_on sep cs of [] \<Rightarrow> [[c]] | p # ps \<Rightarrow> (c # p) # ps))"

subsection \<open>Decimal digits\<close>

definition is_digit :: "char \<Rightarrow> bool" where
  "is_digit c = (48 \<le> (of_char c :: nat) \<and> (of_char c :: nat) \<le> 57)"

definition digit_val :: "char \<Rightarrow> nat" where
  "digit_val c = of_char c - 48"

definition digit_char :: "nat \<Rightarrow> char" where
  "digit_char n = char_of (48 + n)"

definition digits_val :: "string \<Rightarrow> nat" where
  "digits_val s = foldl (\<lambda>acc c. 10 * acc + digit_val c) 0 s"

fun string_of_nat :: "nat \<Rightarrow> string" where
  "string_of_nat n =
     (if n < 10 then [digit_char n] else string_of_nat (n div 10) @ [digit_char (n mod 10)])"

definition pow10 :: "int \<Rightarrow> rat" where
  "pow10 e = (if 0 \<le> e then 10 ^ nat e else 1 / 10 ^ nat (- e))"

declare string_of_nat.simps [simp del]

subsection \<open>String to Number (unary plus on a String)\<close>

text \<open>
  The grammar of a numeric string: optional white space around either a radix literal
  (\<^verbatim>\<open>0x\<close>, \<^verbatim>\<open>0o\<close>, \<^verbatim>\<open>0b\<close>), or an optionally signed \<^verbatim>\<open>Infinity\<close> or decimal literal
  (digits, an optional fraction, an optional exponent). The empty string is 0; anything
  else is NaN.
\<close>

definition all_digits :: "string \<Rightarrow> bool" where
  "all_digits s = (if s = [] then False else list_all is_digit s)"

definition parse_exponent :: "string \<Rightarrow> int option" where
  "parse_exponent s =
     (case s of
        [] \<Rightarrow> None
      | c # cs \<Rightarrow>
          if c = CHR ''-'' then (if all_digits cs then Some (- int (digits_val cs)) else None)
          else if c = CHR ''+'' then (if all_digits cs then Some (int (digits_val cs)) else None)
          else if all_digits s then Some (int (digits_val s)) else None)"

definition parse_mantissa :: "string \<Rightarrow> rat option" where
  "parse_mantissa m =
     (let ip = takeWhile is_digit m; r = dropWhile is_digit m in
      case r of
        [] \<Rightarrow> (if ip = [] then None else Some (of_nat (digits_val ip)))
      | c # fp \<Rightarrow>
          if c = CHR ''.'' \<and> list_all is_digit fp \<and> \<not> (ip = [] \<and> fp = [])
          then Some (of_nat (digits_val (ip @ fp)) / 10 ^ length fp)
          else None)"

definition is_exp_char :: "char \<Rightarrow> bool" where
  "is_exp_char c = (c = CHR ''e'' \<or> c = CHR ''E'')"

definition parse_unsigned :: "string \<Rightarrow> rat option" where
  "parse_unsigned s =
     (let m = takeWhile (\<lambda>c. \<not> is_exp_char c) s; r = dropWhile (\<lambda>c. \<not> is_exp_char c) s in
      case parse_mantissa m of
        None \<Rightarrow> None
      | Some v \<Rightarrow>
          (case r of
             [] \<Rightarrow> Some v
           | e # es \<Rightarrow> (case parse_exponent es of None \<Rightarrow> None | Some x \<Rightarrow> Some (v * pow10 x))))"

definition radix_digit :: "nat \<Rightarrow> char \<Rightarrow> nat option" where
  "radix_digit b c =
     (let n = (of_char c :: nat);
          v = (if 48 \<le> n \<and> n \<le> 57 then n - 48
               else if 97 \<le> n \<and> n \<le> 102 then n - 87
               else if 65 \<le> n \<and> n \<le> 70 then n - 55
               else 16)
      in if v < b then Some v else None)"

fun radix_val :: "nat \<Rightarrow> nat \<Rightarrow> string \<Rightarrow> nat option" where
  "radix_val b acc [] = Some acc"
| "radix_val b acc (c # cs) =
     (case radix_digit b c of None \<Rightarrow> None | Some v \<Rightarrow> radix_val b (b * acc + v) cs)"

definition parse_radix :: "string \<Rightarrow> nat option" where
  "parse_radix s =
     (case s of
        z # x # c # cs \<Rightarrow>
          if z = CHR ''0'' \<and> (x = CHR ''x'' \<or> x = CHR ''X'') then radix_val 16 0 (c # cs)
          else if z = CHR ''0'' \<and> (x = CHR ''o'' \<or> x = CHR ''O'') then radix_val 8 0 (c # cs)
          else if z = CHR ''0'' \<and> (x = CHR ''b'' \<or> x = CHR ''B'') then radix_val 2 0 (c # cs)
          else None
      | _ \<Rightarrow> None)"

definition str_to_number :: "string \<Rightarrow> jsnum" where
  "str_to_number s =
     (let t = trim s in
      case t of
        [] \<Rightarrow> Fin 0
      | c # cs \<Rightarrow>
          (case parse_radix t of
             Some n \<Rightarrow> Fin (of_nat n)
           | None \<Rightarrow>
               (let neg = (c = CHR ''-'');
                    u = (if c = CHR ''-'' \<or> c = CHR ''+'' then cs else t)
                in if u = ''Infinity'' then inf_signed neg
                   else (case parse_unsigned u of
                           None \<Rightarrow> NaN
                         | Some v \<Rightarrow> fin_signed neg (if neg then - v else v)))))"

subsection \<open>Number to String\<close>

text \<open>
  \<^verbatim>\<open>Number.prototype.toString\<close> writes the shortest digit string \<open>s\<close> and the exponent
  \<open>n\<close> with value \<open>0.s \<times> 10\<^sup>n\<close>, in one of four layouts. For a value with a finite
  decimal expansion the digits are exact; for any other rational they are the value
  rounded to 17 significant digits, as many as tell two binary64 values apart.
\<close>

fun strip10 :: "nat \<Rightarrow> nat" where
  "strip10 n = (if n = 0 \<or> n mod 10 \<noteq> 0 then n else strip10 (n div 10))"

declare strip10.simps [simp del]

fun mult_of :: "nat \<Rightarrow> nat \<Rightarrow> nat" where
  "mult_of p q = (if p < 2 \<or> q = 0 \<or> q mod p \<noteq> 0 then 0 else Suc (mult_of p (q div p)))"

declare mult_of.simps [simp del]

text \<open>The decimal exponent of \<open>x > 0\<close>: the \<open>n\<close> with \<open>10\<^sup>n\<^sup>-\<^sup>1 \<le> x < 10\<^sup>n\<close>.\<close>

definition dec_exp :: "rat \<Rightarrow> int" where
  "dec_exp x =
     (let (p, q) = quotient_of x;
          n = int (length (string_of_nat (nat p))) - int (length (string_of_nat (nat q)))
      in if x < pow10 n then n else n + 1)"

definition sig_digits :: "rat \<Rightarrow> nat \<times> int" where
  "sig_digits x =
     (let (p, q) = quotient_of x;
          j = max (mult_of 2 (nat q)) (mult_of 5 (nat q));
          n = dec_exp x
      in if 10 ^ j mod nat q = 0 then (strip10 (nat \<lfloor>x * 10 ^ j\<rfloor>), n)
         else (let S = nat \<lfloor>x * pow10 (17 - n) + 1 / 2\<rfloor>
               in (strip10 S, if 10 ^ 17 \<le> S then n + 1 else n)))"

definition format_number :: "nat \<Rightarrow> int \<Rightarrow> string" where
  "format_number s n =
     (let ds = string_of_nat s; k = int (length ds) in
      if k \<le> n \<and> n \<le> 21 then ds @ replicate (nat (n - k)) (CHR ''0'')
      else if 0 < n \<and> n \<le> 21 then take (nat n) ds @ ''.'' @ drop (nat n) ds
      else if - 6 < n \<and> n \<le> 0 then ''0.'' @ replicate (nat (- n)) (CHR ''0'') @ ds
      else (let e = n - 1;
                ex = (if e < 0 then ''e-'' else ''e+'') @ string_of_nat (nat \<bar>e\<bar>)
            in if k = 1 then ds @ ex else take 1 ds @ ''.'' @ drop 1 ds @ ex))"

definition number_to_string :: "jsnum \<Rightarrow> string" where
  "number_to_string x =
     (case x of
        NaN \<Rightarrow> ''NaN''
      | PosInf \<Rightarrow> ''Infinity''
      | NegInf \<Rightarrow> ''-Infinity''
      | NegZero \<Rightarrow> ''0''
      | Fin q \<Rightarrow>
          if q = 0 then ''0''
          else if q < 0 then CHR ''-'' # format_number (fst (sig_digits (- q))) (snd (sig_digits (- q)))
          else format_number (fst (sig_digits q)) (snd (sig_digits q)))"

text \<open>
  \<^verbatim>\<open>x.toFixed(f)\<close>: the integer \<open>n\<close> nearest to \<open>|x| \<times> 10\<^sup>f\<close>, the larger one on a tie,
  written with \<open>f\<close> decimals; from \<open>10\<^sup>2\<^sup>1\<close> on, and for NaN and the infinities, the plain
  conversion to String.
\<close>

definition fixed_digits :: "nat \<Rightarrow> rat \<Rightarrow> string" where
  "fixed_digits f x =
     (let m = string_of_nat (nat \<lfloor>x * 10 ^ f + 1 / 2\<rfloor>) in
      if f = 0 then m
      else (let z = replicate (f + 1 - length m) (CHR ''0'') @ m; k = length z
            in take (k - f) z @ ''.'' @ drop (k - f) z))"

definition toFixed :: "nat \<Rightarrow> jsnum \<Rightarrow> string" where
  "toFixed f x =
     (case x of
        Fin q \<Rightarrow>
          if 10 ^ 21 \<le> \<bar>q\<bar> then number_to_string x
          else if q < 0 then CHR ''-'' # fixed_digits f (- q)
          else fixed_digits f q
      | NegZero \<Rightarrow> fixed_digits f 0
      | _ \<Rightarrow> number_to_string x)"

subsection \<open>Values and their conversions\<close>

text \<open>
  The arguments the two classes test at run time. \<open>Obj s\<close> is an object (an array, an
  object literal) whose conversion to a primitive is the string \<open>s\<close>.
\<close>

datatype jsval = Undefined | Null | Bool bool | Num jsnum | Str string | Obj string

datatype jstype = T_undefined | T_object | T_boolean | T_number | T_string

definition typeof :: "jsval \<Rightarrow> jstype" where
  "typeof v = (case v of Undefined \<Rightarrow> T_undefined | Null \<Rightarrow> T_object | Bool b \<Rightarrow> T_boolean
     | Num n \<Rightarrow> T_number | Str s \<Rightarrow> T_string | Obj s \<Rightarrow> T_object)"

text \<open>\<^verbatim>\<open>!v\<close> is \<open>\<not> truthy v\<close>.\<close>

definition truthy :: "jsval \<Rightarrow> bool" where
  "truthy v = (case v of Undefined \<Rightarrow> False | Null \<Rightarrow> False | Bool b \<Rightarrow> b
     | Num n \<Rightarrow> \<not> (is_nan n \<or> is_zero n) | Str s \<Rightarrow> s \<noteq> [] | Obj s \<Rightarrow> True)"

text \<open>Unary plus, \<^verbatim>\<open>+v\<close>.\<close>

definition to_number :: "jsval \<Rightarrow> jsnum" where
  "to_number v = (case v of Undefined \<Rightarrow> NaN | Null \<Rightarrow> Fin 0 | Bool b \<Rightarrow> (if b then Fin 1 else Fin 0)
     | Num n \<Rightarrow> n | Str s \<Rightarrow> str_to_number s | Obj s \<Rightarrow> str_to_number s)"

text \<open>\<^verbatim>\<open>v !== 0\<close>: only a Number can be strictly equal to 0.\<close>

definition not_strict_zero :: "jsval \<Rightarrow> bool" where
  "not_strict_zero v = (case v of Num n \<Rightarrow> \<not> is_zero n | _ \<Rightarrow> True)"

text \<open>The global \<^verbatim>\<open>isNaN(v)\<close> and \<^verbatim>\<open>isFinite(v)\<close> convert their argument first.\<close>

definition isNaN :: "jsval \<Rightarrow> bool" where
  "isNaN v = is_nan (to_number v)"

definition isFinite :: "jsval \<Rightarrow> bool" where
  "isFinite v = is_finite (to_number v)"

section \<open>Money\<close>

text \<open>
  An instance holds \<^verbatim>\<open>cents\<close> (a Number) and \<^verbatim>\<open>currency\<close> (a String). The entries of
  the class's \<^verbatim>\<open>ERRORS\<close> table are the constructors of \<open>money_error\<close>, each with the
  values its message interpolates; \<open>Conversion\<close> is the error of \<^verbatim>\<open>fromUnit\<close>, and
  \<open>TypeError\<close> is the run-time error of calling \<^verbatim>\<open>toFixed\<close> on a value that is not a
  Number. In the specification's vocabulary: \<open>MissingArg\<close> is MissingArgument, \<open>Nan\<close>
  is NotANumber, \<open>Infinity\<close> is NonFiniteAmount, \<open>PortionsSum\<close> is PortionsSumError and
  \<open>Conversion\<close> is ConversionError.
\<close>

record money =
  cents :: jsnum
  currency :: string

datatype money_error =
    MissingArg
  | Nan jsval
  | Infinity
  | ZeroDivision
  | InvalidType jstype
  | CurrencyMismatch string string
  | PortionsSum "jsnum list"
  | Comparison string string
  | Conversion jsval
  | TypeError

definition DEFAULT_CURRENCY :: string where
  "DEFAULT_CURRENCY = ''USD''"

definition validateInfinity :: "jsval \<Rightarrow> money_error + unit" where
  "validateInfinity n = (if isFinite n then Inr () else Inl Infinity)"


definition validateNumber :: "jsval \<Rightarrow> money_error + unit" where
  "validateNumber n =
     (if typeof n = T_number \<or> typeof n = T_string
      then (if isNaN n then Inl (Nan n) else Inr ())
      else Inl (Nan n))"

text \<open>
  \<^verbatim>\<open>new Money(cents, currency)\<close>. The second argument is optional. \<^verbatim>\<open>cents.toFixed(0)\<close>
  exists only on a Number: a numeric string passes the three checks and then fails there.
\<close>

definition Money :: "jsval \<Rightarrow> string option \<Rightarrow> money_error + money" where
  "Money c cur =
     (if \<not> truthy c \<and> not_strict_zero c then Inl MissingArg
      else case validateNumber c of
        Inl e \<Rightarrow> Inl e
      | Inr u \<Rightarrow>
          (case validateInfinity c of
             Inl e \<Rightarrow> Inl e
           | Inr u \<Rightarrow>
               (case c of
                  Num n \<Rightarrow>
                    Inr \<lparr>cents = str_to_number (toFixed 0 n),
                         currency =
                           (case cur of
                              None \<Rightarrow> DEFAULT_CURRENCY
                            | Some s \<Rightarrow>
                                if s \<noteq> [] \<and> 0 < length (trim s) then toUpperCase (trim s)
                                else DEFAULT_CURRENCY)\<rparr>
                | _ \<Rightarrow> Inl TypeError)))"





text \<open>
  \<^verbatim>\<open>split(portions)\<close>. The body of the \<^verbatim>\<open>forEach\<close> is \<open>split_step\<close>, on the three
  variables the loop updates: \<^verbatim>\<open>portionsSum\<close>, \<^verbatim>\<open>available\<close> and \<^verbatim>\<open>results\<close>. An
  exception of \<^verbatim>\<open>new Money\<close> leaves the loop. The sum is tested after the loop. The
  argument is \<open>None\<close> when it is absent or not an array.
\<close>

definition split_step ::
  "money \<Rightarrow> jsnum \<times> jsnum \<times> money list \<Rightarrow> jsnum \<Rightarrow> money_error + jsnum \<times> jsnum \<times> money list" where
  "split_step this st portion =
     (case st of (portionsSum, available, results) \<Rightarrow>
        (let result = str_to_number (toFixed 0 (js_div (js_mul (cents this) portion) (Fin 100)))
         in if js_gt result available
            then (case Money (Num available) (Some (currency this)) of
                    Inl e \<Rightarrow> Inl e
                  | Inr r \<Rightarrow> Inr (js_add portionsSum portion, available, results @ [r]))
            else (case Money (Num result) (Some (currency this)) of
                    Inl e \<Rightarrow> Inl e
                  | Inr r \<Rightarrow>
                      Inr (js_add portionsSum portion, js_sub available result, results @ [r]))))"

fun split_loop ::
  "money \<Rightarrow> jsnum \<times> jsnum \<times> money list \<Rightarrow> jsnum list \<Rightarrow> money_error + jsnum \<times> jsnum \<times> money list" where
  "split_loop this st [] = Inr st"
| "split_loop this st (portion # rest) =
     (case split_step this st portion of Inl e \<Rightarrow> Inl e | Inr st' \<Rightarrow> split_loop this st' rest)"

definition split_money :: "money \<Rightarrow> jsnum list option \<Rightarrow> money_error + money list" where
  "split_money this arg =
     (case arg of
        None \<Rightarrow> Inl MissingArg
      | Some portions \<Rightarrow>
          if portions = [] then Inl MissingArg
          else (case split_loop this (Fin 0, cents this, []) portions of
                  Inl e \<Rightarrow> Inl e
                | Inr (portionsSum, available, results) \<Rightarrow>
                    if js_eq portionsSum (Fin 100) then Inr results
                    else Inl (PortionsSum portions)))"

text \<open>Accessors and equality.\<close>

definition getSubunit :: "money \<Rightarrow> jsnum" where
  "getSubunit this = cents this"


definition getCurrency :: "money \<Rightarrow> string" where
  "getCurrency this = currency this"


section \<open>Odds\<close>

text \<open>
  An instance holds the three readonly fields \<^verbatim>\<open>d\<close>, \<^verbatim>\<open>f\<close> and \<^verbatim>\<open>a\<close>, here
  \<open>odds_d\<close>, \<open>odds_f\<close> and \<open>odds_a\<close>. \<^verbatim>\<open>simplifyFraction\<close> can return \<^verbatim>\<open>null\<close>, so
  \<open>odds_f\<close> is optional. The constructors of \<open>odds_error\<close> are the entries of the
  class's \<^verbatim>\<open>ERRORS\<close> table with the value each message interpolates; \<open>NoToString\<close>
  is the run-time TypeError of \<^verbatim>\<open>price.toString()\<close> on \<^verbatim>\<open>null\<close> or \<^verbatim>\<open>undefined\<close>. In
  the specification's vocabulary: \<open>UnknownFormat\<close> is UnknownFormatError,
  \<open>InvalidFraction\<close> is InvalidFractionalOdds, \<open>InvalidAmerican\<close> is
  InvalidAmericanOdds, \<open>NanOdds\<close> is InvalidDecimalOdds and \<open>Negative\<close> is
  NonPositiveOdds.
\<close>

record odds =
  odds_d :: string
  odds_f :: "string option"
  odds_a :: string

datatype odds_error =
    UnknownFormat string
  | InvalidPrice jsval
  | InvalidFraction jsval
  | InvalidAmerican jsval
  | NanOdds jsnum
  | Negative
  | NoToString

definition validateD :: "jsval \<Rightarrow> odds_error + unit" where
  "validateD p =
     (if typeof p = T_string \<or> typeof p = T_number
      then (if isNaN p \<or> \<not> isFinite p then Inl (NanOdds (to_number p))
            else if js_le (to_number p) (Fin 0) then Inl Negative
            else Inr ())
      else Inl (InvalidPrice p))"

text \<open>\<^verbatim>\<open>parts[i]\<close> converted by unary plus: an index out of range reads \<^verbatim>\<open>undefined\<close>.\<close>

definition part_number :: "string list \<Rightarrow> nat \<Rightarrow> jsnum" where
  "part_number parts i = (if i < length parts then str_to_number (parts ! i) else NaN)"

definition validateF :: "jsval \<Rightarrow> odds_error + unit" where
  "validateF p =
     (case p of
        Str s \<Rightarrow>
          (let parts = split_on (CHR ''/'') s in
           if length parts = 2
           then (if is_nan (part_number parts 0) then Inl (InvalidFraction p)
                 else if is_nan (part_number parts 1) then Inl (InvalidFraction p)
                 else Inr ())
           else Inl (InvalidFraction p))
      | _ \<Rightarrow> Inl (InvalidPrice p))"

definition validateA :: "jsval \<Rightarrow> odds_error + unit" where
  "validateA p =
     (case p of
        Str s \<Rightarrow>
          (if length s < 2 then Inl (InvalidPrice p)
           else if hd s = CHR ''-'' \<or> hd s = CHR ''+''
             then (if is_nan (str_to_number (tl s)) then Inl (InvalidAmerican p) else Inr ())
           else Inl (InvalidAmerican p))
      | _ \<Rightarrow> Inl (InvalidPrice p))"

text \<open>
  The recursion of \<^verbatim>\<open>findGreatestCommonDen\<close> continues while \<open>b\<close> is truthy, that is
  neither a zero nor NaN.
\<close>

definition num_truthy :: "jsnum \<Rightarrow> bool" where
  "num_truthy b = (if is_nan b then False else if is_zero b then False else True)"

function findGreatestCommonDen :: "jsnum \<Rightarrow> jsnum \<Rightarrow> jsnum" where
  "findGreatestCommonDen a b =
     (if num_truthy b then findGreatestCommonDen b (js_mod a b) else a)"
  by pat_completeness auto

text \<open>
  The measure of its termination (proved below): in units of the least common denominator
  of \<open>a\<close> and \<open>b\<close> the second argument is an integer, and the remainder is a smaller
  one in the same units.
\<close>

definition den_of :: "rat \<Rightarrow> nat" where
  "den_of q = nat (snd (quotient_of q))"

definition gcd_measure :: "jsnum \<times> jsnum \<Rightarrow> nat" where
  "gcd_measure p =
     (case p of (a, b) \<Rightarrow>
        if \<not> num_truthy b then 0
        else if is_inf b then 2
        else if \<not> is_finite a then 1
        else 2 + nat \<lfloor>\<bar>val b\<bar> * of_nat (lcm (den_of (val a)) (den_of (val b)))\<rfloor>)"

text \<open>\<^verbatim>\<open>simplifyFraction(num, den)\<close>; \<open>None\<close> is \<^verbatim>\<open>null\<close>.\<close>

definition simplifyFraction :: "jsnum \<Rightarrow> jsnum \<Rightarrow> string option" where
  "simplifyFraction num den =
     (if num_truthy den
      then (if is_nan num then None
            else if is_nan den then None
            else (let greatestCommonDen = findGreatestCommonDen num den;
                      simplifiedNum = js_div num greatestCommonDen;
                      simplifiedDen = js_div den greatestCommonDen
                  in Some (number_to_string simplifiedNum @ ''/'' @ number_to_string simplifiedDen)))
      else None)"

text \<open>Decimal to fractional.\<close>

definition dToF :: "string \<Rightarrow> string option" where
  "dToF p =
     (let n = str_to_number p;
          dec = str_to_number (toFixed 2 n);
          num = js_sub (Math_round (js_mul dec (Fin 100))) (Fin 100);
          den = Fin 100
      in simplifyFraction num den)"

text \<open>Decimal to american.\<close>

definition dToA :: "string \<Rightarrow> string" where
  "dToA p =
     (let n = str_to_number p in
      if js_eq n (Fin 1) then ''-''
      else if js_lt n (Fin 2)
        then number_to_string (Math_round (js_div (Fin (- 100)) (js_sub n (Fin 1))))
      else CHR ''+'' # number_to_string (Math_round (js_mul (js_sub n (Fin 1)) (Fin 100))))"

text \<open>Fractional to decimal.\<close>

definition fToD :: "string \<Rightarrow> string" where
  "fToD p =
     (let parts = split_on (CHR ''/'') p;
          num = part_number parts 0;
          den = part_number parts 1;
          dec = js_add (js_div num den) (Fin 1)
      in toFixed 2 dec)"

text \<open>American to decimal. \<^verbatim>\<open>p[0]\<close> of the empty string is \<^verbatim>\<open>undefined\<close>.\<close>

definition aToD :: "string \<Rightarrow> string" where
  "aToD p =
     (let pos = (case p of [] \<Rightarrow> False | c # cs \<Rightarrow> c = CHR ''+'');
          n = str_to_number (drop 1 p);
          dec = (if pos then js_add (Fin 1) (js_div n (Fin 100))
                 else js_sub (Fin 1) (js_div (Fin 100) (js_neg n)))
      in toFixed 2 dec)"

text \<open>\<^verbatim>\<open>price.toString()\<close>: \<^verbatim>\<open>null\<close> and \<^verbatim>\<open>undefined\<close> have no such method.\<close>

definition toString :: "jsval \<Rightarrow> odds_error + string" where
  "toString v =
     (case v of
        Undefined \<Rightarrow> Inl NoToString
      | Null \<Rightarrow> Inl NoToString
      | Bool b \<Rightarrow> Inr (if b then ''true'' else ''false'')
      | Num n \<Rightarrow> Inr (number_to_string n)
      | Str s \<Rightarrow> Inr s
      | Obj s \<Rightarrow> Inr s)"

text \<open>\<^verbatim>\<open>format.toLowerCase().charAt(0)\<close>.\<close>

definition lower_charAt0 :: "string \<Rightarrow> string" where
  "lower_charAt0 s = (case s of [] \<Rightarrow> [] | c # cs \<Rightarrow> [toLowerCase_char c])"

text \<open>
  \<^verbatim>\<open>new Odds(price, format)\<close>. The format is optional; an absent and an empty format are
  both falsy and select the decimal branch.
\<close>

definition Odds :: "jsval \<Rightarrow> string option \<Rightarrow> odds_error + odds" where
  "Odds price format =
     (let fmt = (case format of None \<Rightarrow> [] | Some s \<Rightarrow> s) in
      if fmt = [] \<or> lower_charAt0 fmt = ''d''
      then (case validateD price of
              Inl e \<Rightarrow> Inl e
            | Inr u \<Rightarrow>
                Inr \<lparr>odds_d = toFixed 2 (to_number price),
                     odds_f = dToF (toFixed 3 (to_number price)),
                     odds_a = dToA (toFixed 3 (to_number price))\<rparr>)
      else if lower_charAt0 fmt = ''f''
      then (case toString price of
              Inl e \<Rightarrow> Inl e
            | Inr s \<Rightarrow>
                (case validateF (Str s) of
                   Inl e \<Rightarrow> Inl e
                 | Inr u \<Rightarrow> Inr \<lparr>odds_d = fToD s, odds_f = Some s, odds_a = dToA (fToD s)\<rparr>))
      else if lower_charAt0 fmt = ''a''
      then (case toString price of
              Inl e \<Rightarrow> Inl e
            | Inr s \<Rightarrow>
                (case validateA (Str s) of
                   Inl e \<Rightarrow> Inl e
                 | Inr u \<Rightarrow>
                     Inr \<lparr>odds_d = aToD s,
                          odds_f = dToF (toFixed 3 (str_to_number (aToD s))),
                          odds_a = s\<rparr>))
      else Inl (UnknownFormat fmt))"

section \<open>Definitions used by the statements\<close>

text \<open>
  Rounding to the nearest integer, a tie away from zero: the rule the specification gives
  for the stored amount.
\<close>

definition round_half_away :: "rat \<Rightarrow> int" where
  "round_half_away q = (if q < 0 then - \<lfloor>- q + 1 / 2\<rfloor> else \<lfloor>q + 1 / 2\<rfloor>)"

text \<open>
  From \<open>10\<^sup>2\<^sup>1\<close> on \<^verbatim>\<open>toFixed\<close> prints the number as it is, without rounding it. A
  binary64 value of that size is an integer (every one from \<open>2\<^sup>5\<^sup>3\<close> on is); the exact
  rationals of the model are not all, so a statement about the value \<^verbatim>\<open>toFixed(0)\<close>
  yields is made for the rationals that are like a Number in this respect.
\<close>

definition integral_from_1e21 :: "rat \<Rightarrow> bool" where
  "integral_from_1e21 q = (if \<bar>q\<bar> < 10 ^ 21 then True else q = of_int \<lfloor>q\<rfloor>)"

text \<open>The currency the constructor stores, as its last statement computes it.\<close>

definition stored_currency :: "string option \<Rightarrow> string" where
  "stored_currency cur =
     (case cur of
        None \<Rightarrow> DEFAULT_CURRENCY
      | Some s \<Rightarrow> if s \<noteq> [] \<and> 0 < length (trim s) then toUpperCase (trim s) else DEFAULT_CURRENCY)"

text \<open>The characters of the strings \<^verbatim>\<open>toFixed\<close> and \<^verbatim>\<open>toString\<close> write for a finite Number.\<close>

definition lit_char :: "char \<Rightarrow> bool" where
  "lit_char c = (is_digit c \<or> c = CHR ''.'' \<or> c = CHR ''e'' \<or> c = CHR ''+'' \<or> c = CHR ''-'')"

section \<open>Termination of the recursion in simplifyFraction\<close>

lemma den_of_pos: "0 < den_of q"
  unfolding den_of_def using quotient_of_denom_pos'[of q] by simp

lemma den_of_mult_int: "\<exists>k::int. q * of_nat (den_of q) = of_int k"
proof -
  obtain p d where pd: "quotient_of q = (p, d)" by (cases "quotient_of q")
  then have d: "0 < d" and q: "q = of_int p / of_int d"
    using quotient_of_denom_pos quotient_of_div by auto
  have dn: "(of_nat (den_of q) :: rat) = of_int d"
    using d by (simp add: den_of_def pd)
  have "q * of_nat (den_of q) = of_int p"
    unfolding dn using d q by simp
  then show ?thesis by blast
qed

lemma den_of_dvd:
  assumes "q * of_nat L = of_int k"
  shows "den_of q dvd L"
proof -
  obtain p d where pd: "quotient_of q = (p, d)" by (cases "quotient_of q")
  then have d: "0 < d" and q: "q = of_int p / of_int d" and cop: "coprime p d"
    using quotient_of_denom_pos quotient_of_div quotient_of_coprime by auto
  from assms q d have "(of_int (p * int L) :: rat) = of_int (k * d)"
    by (simp add: field_simps)
  then have "p * int L = k * d" by (simp only: of_int_eq_iff)
  then have "d dvd p * int L" by simp
  with cop have "d dvd int L"
    by (simp add: coprime_commute coprime_dvd_mult_right_iff)
  then have "int (nat d) dvd int L" using d by simp
  then show ?thesis unfolding den_of_def pd by (simp only: int_dvd_int_iff snd_conv)
qed

lemma lcm_den_int:
  assumes "den_of x dvd L"
  shows "\<exists>k::int. x * of_nat L = of_int k"
proof -
  obtain k where k: "x * of_nat (den_of x) = of_int k" using den_of_mult_int by blast
  obtain m where m: "L = den_of x * m" using assms by (auto simp: dvd_def)
  have "x * of_nat L = of_int (k * int m)"
    unfolding m using k by (simp add: mult.assoc[symmetric])
  then show ?thesis by blast
qed

lemma trunc_rem_less:
  assumes "b \<noteq> 0"
  shows "\<bar>a - b * of_int (trunc (a / b))\<bar> < \<bar>b\<bar>"
proof -
  define t where "t = a / b"
  have a: "a = b * t" using assms by (simp add: t_def)
  have "\<bar>t - of_int (trunc t)\<bar> < 1"
    unfolding trunc_def by (auto simp: abs_if) linarith+
  then have "\<bar>b\<bar> * \<bar>t - of_int (trunc t)\<bar> < \<bar>b\<bar> * 1"
    using assms by (intro mult_strict_left_mono) auto
  moreover have "a - b * of_int (trunc (a / b)) = b * (t - of_int (trunc t))"
    using a by (simp add: t_def algebra_simps)
  ultimately show ?thesis by (simp add: abs_mult)
qed

lemma gcd_measure_step:
  assumes "num_truthy b"
  shows "gcd_measure (b, js_mod a b) < gcd_measure (a, b)"
proof (cases "is_inf b")
  case True
  then show ?thesis
    using assms
    by (cases a; cases b)
       (auto simp: gcd_measure_def js_mod_def num_truthy_def is_inf_def is_nan_def is_zero_def
          is_finite_def)
next
  case binf: False
  show ?thesis
  proof (cases "is_finite a")
    case False
    then show ?thesis
      using assms binf
      by (cases a; cases b)
         (auto simp: gcd_measure_def js_mod_def num_truthy_def is_inf_def is_nan_def is_zero_def
            is_finite_def)
  next
    case afin: True
    from assms binf obtain vb where b: "b = Fin vb" and vb: "vb \<noteq> 0"
      by (cases b) (auto simp: num_truthy_def is_nan_def is_zero_def is_inf_def split: if_splits)
    show ?thesis
    proof (cases "num_truthy (js_mod a b)")
      case False
      then show ?thesis using assms binf afin by (simp add: gcd_measure_def)
    next
      case True
      with afin b vb obtain va where a: "a = Fin va" and va: "va \<noteq> 0"
        by (cases a) (auto simp: js_mod_def num_truthy_def is_nan_def is_zero_def is_inf_def
              is_finite_def split: if_splits)
      define r where "r = va - vb * of_int (trunc (va / vb))"
      have jm: "js_mod a b = fin_signed (va < 0) r"
        using a b va vb
        by (simp add: js_mod_def is_nan_def is_inf_def is_zero_def sign_neg_def val_def r_def)
      with True have r0: "r \<noteq> 0" and jr: "js_mod a b = Fin r"
        by (auto simp: fin_signed_def zero_signed_def num_truthy_def is_nan_def is_zero_def
              split: if_splits)
      define L where "L = lcm (den_of va) (den_of vb)"
      have Lpos: "0 < L" unfolding L_def using den_of_pos by (simp add: lcm_pos_nat)
      obtain ka where ka: "va * of_nat L = of_int ka"
        using lcm_den_int[of va L] by (auto simp: L_def)
      obtain kb where kb: "vb * of_nat L = of_int kb"
        using lcm_den_int[of vb L] by (auto simp: L_def)
      have "r * of_nat L = of_int (ka - kb * trunc (va / vb))"
        unfolding r_def using ka kb by (simp add: algebra_simps)
      then have "den_of r dvd L" by (rule den_of_dvd)
      moreover have "den_of vb dvd L" by (simp add: L_def)
      ultimately have "lcm (den_of vb) (den_of r) dvd L" by simp
      then have le: "lcm (den_of vb) (den_of r) \<le> L" using Lpos by (simp add: dvd_imp_le)
      have rlt: "\<bar>r\<bar> < \<bar>vb\<bar>" unfolding r_def using vb by (rule trunc_rem_less)
      have "\<bar>r\<bar> * of_nat (lcm (den_of vb) (den_of r)) \<le> \<bar>r\<bar> * of_nat L"
        using le by (intro mult_left_mono) auto
      also have "\<dots> < \<bar>vb\<bar> * of_nat L"
        using rlt Lpos by (intro mult_strict_right_mono) auto
      finally have lt: "\<bar>r\<bar> * of_nat (lcm (den_of vb) (den_of r)) < \<bar>vb\<bar> * of_nat L" .
      have "\<bar>vb * of_nat L\<bar> = \<bar>of_int kb :: rat\<bar>"
        by (simp only: kb)
      then have "\<bar>vb\<bar> * of_nat L = of_int \<bar>kb\<bar>"
        by (simp add: abs_mult)
      with lt have "\<lfloor>\<bar>r\<bar> * of_nat (lcm (den_of vb) (den_of r))\<rfloor> < \<lfloor>\<bar>vb\<bar> * of_nat L\<rfloor>"
        by (simp add: floor_less_iff)
      moreover have "0 \<le> \<lfloor>\<bar>r\<bar> * of_nat (lcm (den_of vb) (den_of r))\<rfloor>" by simp
      ultimately have natlt:
        "nat \<lfloor>\<bar>r\<bar> * of_nat (lcm (den_of vb) (den_of r))\<rfloor> < nat \<lfloor>\<bar>vb\<bar> * of_nat L\<rfloor>"
        by linarith
      have m1: "gcd_measure (b, Fin r) = 2 + nat \<lfloor>\<bar>r\<bar> * of_nat (lcm (den_of vb) (den_of r))\<rfloor>"
        using b r0
        by (simp add: gcd_measure_def num_truthy_def is_nan_def is_zero_def is_inf_def
              is_finite_def val_def)
      have m2: "gcd_measure (a, b) = 2 + nat \<lfloor>\<bar>vb\<bar> * of_nat L\<rfloor>"
        using a b vb
        by (simp add: gcd_measure_def num_truthy_def is_nan_def is_zero_def is_inf_def
              is_finite_def val_def L_def)
      show ?thesis unfolding jr m1 m2 using natlt by linarith
    qed
  qed
qed

termination findGreatestCommonDen
  by (relation "measure gcd_measure") (simp_all add: gcd_measure_step)

section \<open>Digits, printing and parsing\<close>

lemma is_digit_digit_char: "d < 10 \<Longrightarrow> is_digit (digit_char d)"
  by (simp add: is_digit_def digit_char_def)

lemma digit_val_digit_char: "d < 10 \<Longrightarrow> digit_val (digit_char d) = d"
  by (simp add: digit_val_def digit_char_def)

lemma digit_char_eq_zero: "d < 10 \<Longrightarrow> (digit_char d = CHR ''0'') = (d = 0)"
proof -
  assume d: "d < 10"
  have "(digit_char d = CHR ''0'') = ((of_char (digit_char d) :: nat) = of_char (CHR ''0''))"
    by (simp only: of_char_eq_iff)
  also have "\<dots> = (d = 0)" using d by (simp add: digit_char_def)
  finally show ?thesis .
qed

lemma string_of_nat_digits: "list_all is_digit (string_of_nat n)"
  by (induction n rule: string_of_nat.induct)
     (subst string_of_nat.simps, simp add: is_digit_digit_char)

lemma string_of_nat_nonempty: "string_of_nat n \<noteq> []"
  by (subst string_of_nat.simps) simp

lemma digits_val_snoc: "digits_val (xs @ [x]) = 10 * digits_val xs + digit_val x"
  by (simp add: digits_val_def)

lemma digits_val_Nil: "digits_val [] = 0"
  by (simp add: digits_val_def)

lemma digits_val_append:
  "digits_val (a @ b) = digits_val a * 10 ^ length b + digits_val b"
proof (induction b rule: rev_induct)
  case Nil
  show ?case by (simp add: digits_val_Nil)
next
  case (snoc x xs)
  have "digits_val (a @ xs @ [x]) = 10 * digits_val (a @ xs) + digit_val x"
    using digits_val_snoc[of "a @ xs" x] by simp
  also have "\<dots> = 10 * (digits_val a * 10 ^ length xs + digits_val xs) + digit_val x"
    by (simp only: snoc.IH)
  also have "\<dots> = digits_val a * 10 ^ length (xs @ [x]) + digits_val (xs @ [x])"
    by (simp add: digits_val_snoc algebra_simps)
  finally show ?case .
qed

lemma digits_val_string_of_nat: "digits_val (string_of_nat n) = n"
proof (induction n rule: string_of_nat.induct)
  case (1 n)
  show ?case
  proof (cases "n < 10")
    case True
    then show ?thesis
      using digits_val_snoc[of "[]" "digit_char n"]
      by (subst string_of_nat.simps) (simp add: digits_val_Nil digit_val_digit_char)
  next
    case False
    have "digits_val (string_of_nat n)
          = digits_val (string_of_nat (n div 10)) * 10 + digits_val [digit_char (n mod 10)]"
      using False by (subst string_of_nat.simps) (simp add: digits_val_append)
    also have "\<dots> = (n div 10) * 10 + n mod 10"
      using 1[OF False] digits_val_snoc[of "[]" "digit_char (n mod 10)"]
      by (simp add: digits_val_Nil digit_val_digit_char)
    finally show ?thesis by simp
  qed
qed

lemma hd_string_of_nat: "0 < n \<Longrightarrow> hd (string_of_nat n) \<noteq> CHR ''0''"
proof (induction n rule: string_of_nat.induct)
  case (1 n)
  show ?case
  proof (cases "n < 10")
    case True
    with 1(2) show ?thesis
      by (subst string_of_nat.simps) (simp add: digit_char_eq_zero)
  next
    case False
    then have "0 < n div 10" by simp
    with 1(1)[OF False] have "hd (string_of_nat (n div 10)) \<noteq> CHR ''0''" by simp
    then show ?thesis
      using False string_of_nat_nonempty[of "n div 10"]
      by (subst string_of_nat.simps) simp
  qed
qed

lemma length_string_of_nat_upper: "n < 10 ^ length (string_of_nat n)"
proof (induction n rule: string_of_nat.induct)
  case (1 n)
  show ?case
  proof (cases "n < 10")
    case True
    then show ?thesis by (subst string_of_nat.simps) simp
  next
    case False
    from 1[OF False] have "n div 10 < 10 ^ length (string_of_nat (n div 10))" .
    then have "n < 10 * 10 ^ length (string_of_nat (n div 10))" by simp
    then show ?thesis using False by (subst string_of_nat.simps) simp
  qed
qed

lemma length_string_of_nat_lower: "0 < n \<Longrightarrow> 10 ^ (length (string_of_nat n) - 1) \<le> n"
proof (induction n rule: string_of_nat.induct)
  case (1 n)
  show ?case
  proof (cases "n < 10")
    case True
    with 1(2) show ?thesis by (subst string_of_nat.simps) simp
  next
    case False
    then have pos: "0 < n div 10" by simp
    from 1(1)[OF False pos] have "10 ^ (length (string_of_nat (n div 10)) - 1) \<le> n div 10" .
    then have "10 * 10 ^ (length (string_of_nat (n div 10)) - 1) \<le> n" by simp
    moreover have "length (string_of_nat (n div 10)) \<noteq> 0"
      using string_of_nat_nonempty by simp
    ultimately have "10 ^ length (string_of_nat (n div 10)) \<le> n"
      by (cases "length (string_of_nat (n div 10))") simp_all
    then show ?thesis using False by (subst string_of_nat.simps) simp
  qed
qed

lemma is_digit_lit: "is_digit c \<Longrightarrow> lit_char c"
  by (simp add: lit_char_def)

lemma lit_char_not_ws: "lit_char c \<Longrightarrow> \<not> is_ws c"
  by (auto simp: lit_char_def is_ws_def is_digit_def)

lemma is_digit_not_exp: "is_digit c \<Longrightarrow> \<not> is_exp_char c"
  by (auto simp: is_digit_def is_exp_char_def)

lemma is_digit_not_dot: "is_digit c \<Longrightarrow> c \<noteq> CHR ''.''"
  by (auto simp: is_digit_def)

lemma is_digit_not_sign: "is_digit c \<Longrightarrow> c \<noteq> CHR ''-'' \<and> c \<noteq> CHR ''+''"
  by (auto simp: is_digit_def)

lemma trim_lit: "list_all lit_char u \<Longrightarrow> trim u = u"
proof -
  assume a: "list_all lit_char u"
  then have "\<forall>c\<in>set u. \<not> is_ws c" by (simp add: list_all_iff lit_char_not_ws)
  then have 1: "dropWhile is_ws u = u"
    by (cases u) auto
  from \<open>\<forall>c\<in>set u. \<not> is_ws c\<close> have "\<forall>c\<in>set (rev u). \<not> is_ws c" by simp
  then have 2: "dropWhile is_ws (rev u) = rev u"
    by (cases "rev u") auto
  show ?thesis by (simp add: trim_def 1 2)
qed

lemma parse_radix_lit: "list_all lit_char u \<Longrightarrow> parse_radix u = None"
proof -
  assume a: "list_all lit_char u"
  show ?thesis
  proof (cases u)
    case Nil
    then show ?thesis by (simp add: parse_radix_def)
  next
    case (Cons z r)
    show ?thesis
    proof (cases r)
      case Nil
      with Cons show ?thesis by (simp add: parse_radix_def)
    next
      case r: (Cons x r')
      with a Cons have "lit_char x" by simp
      then have "x \<noteq> CHR ''x'' \<and> x \<noteq> CHR ''X'' \<and> x \<noteq> CHR ''o'' \<and> x \<noteq> CHR ''O''
                 \<and> x \<noteq> CHR ''b'' \<and> x \<noteq> CHR ''B''"
        by (auto simp: lit_char_def is_digit_def)
      with Cons r show ?thesis by (cases r') (simp_all add: parse_radix_def)
    qed
  qed
qed

lemma lit_not_Infinity: "list_all lit_char u \<Longrightarrow> u \<noteq> ''Infinity''"
  by (auto simp: lit_char_def is_digit_def)

lemma str_to_number_lit:
  assumes "list_all lit_char (c # cs)"
  shows "str_to_number (c # cs) =
           (case parse_unsigned (if c = CHR ''-'' \<or> c = CHR ''+'' then cs else c # cs) of
              None \<Rightarrow> NaN
            | Some v \<Rightarrow> fin_signed (c = CHR ''-'') (if c = CHR ''-'' then - v else v))"
proof -
  have cs: "list_all lit_char cs" using assms by simp
  have ni: "(if c = CHR ''-'' \<or> c = CHR ''+'' then cs else c # cs) \<noteq> ''Infinity''"
    using lit_not_Infinity[OF assms] lit_not_Infinity[OF cs] by simp
  show ?thesis
    unfolding str_to_number_def trim_lit[OF assms]
    using ni by (simp add: parse_radix_lit[OF assms] Let_def)
qed

lemma parse_mantissa_int:
  assumes "list_all is_digit ip" "ip \<noteq> []"
  shows "parse_mantissa ip = Some (of_nat (digits_val ip))"
proof -
  from assms(1) have "\<forall>c\<in>set ip. is_digit c" by (simp add: list_all_iff)
  then have tw: "takeWhile is_digit ip = ip" and dw: "dropWhile is_digit ip = []" by simp_all
  show ?thesis using assms(2) by (simp add: parse_mantissa_def tw dw)
qed

lemma parse_mantissa_frac:
  assumes "list_all is_digit ip" "list_all is_digit fp" "\<not> (ip = [] \<and> fp = [])"
  shows "parse_mantissa (ip @ CHR ''.'' # fp)
         = Some (of_nat (digits_val (ip @ fp)) / 10 ^ length fp)"
proof -
  from assms(1) have ip: "\<forall>c\<in>set ip. is_digit c" by (simp add: list_all_iff)
  have nd: "\<not> is_digit (CHR ''.'')" by (simp add: is_digit_def)
  have 1: "takeWhile is_digit (ip @ CHR ''.'' # fp) = ip"
    using ip nd by (simp add: takeWhile_append2)
  have 2: "dropWhile is_digit (ip @ CHR ''.'' # fp) = CHR ''.'' # fp"
    using ip nd by (simp add: dropWhile_append2)
  show ?thesis using assms(2,3) by (simp add: parse_mantissa_def 1 2)
qed

lemma parse_exponent_plus:
  assumes "list_all is_digit ds" "ds \<noteq> []"
  shows "parse_exponent (CHR ''+'' # ds) = Some (int (digits_val ds))"
  using assms by (simp add: parse_exponent_def all_digits_def)

lemma parse_unsigned_plain:
  assumes "list_all (\<lambda>c. \<not> is_exp_char c) m"
  shows "parse_unsigned m = parse_mantissa m"
proof -
  from assms have "\<forall>c\<in>set m. \<not> is_exp_char c" by (simp add: list_all_iff)
  then have tw: "takeWhile (\<lambda>c. \<not> is_exp_char c) m = m"
    and dw: "dropWhile (\<lambda>c. \<not> is_exp_char c) m = []"
    by simp_all
  show ?thesis by (simp add: parse_unsigned_def tw dw split: option.splits)
qed

lemma parse_unsigned_exp:
  assumes "list_all (\<lambda>c. \<not> is_exp_char c) m"
  shows "parse_unsigned (m @ CHR ''e'' # es)
         = (case parse_mantissa m of
              None \<Rightarrow> None
            | Some v \<Rightarrow> (case parse_exponent es of None \<Rightarrow> None | Some x \<Rightarrow> Some (v * pow10 x)))"
proof -
  from assms have m: "\<forall>c\<in>set m. \<not> is_exp_char c" by (simp add: list_all_iff)
  have e: "is_exp_char (CHR ''e'')" by (simp add: is_exp_char_def)
  have 1: "takeWhile (\<lambda>c. \<not> is_exp_char c) (m @ CHR ''e'' # es) = m"
    using m e by (simp add: takeWhile_append2)
  have 2: "dropWhile (\<lambda>c. \<not> is_exp_char c) (m @ CHR ''e'' # es) = CHR ''e'' # es"
    using m e by (simp add: dropWhile_append2)
  show ?thesis by (simp add: parse_unsigned_def 1 2 split: option.splits)
qed

lemma digits_val_zeros: "digits_val (replicate n (CHR ''0'')) = 0"
proof (induction n)
  case 0
  show ?case by (simp add: digits_val_Nil)
next
  case (Suc n)
  have "replicate (Suc n) (CHR ''0'') = replicate n (CHR ''0'') @ [CHR ''0'']"
    by (simp add: replicate_append_same)
  then show ?case using Suc by (simp only: digits_val_snoc) (simp add: digit_val_def)
qed

lemma is_digit_zero: "is_digit (CHR ''0'')"
  by (simp add: is_digit_def)

lemma list_all_digit_lit: "list_all is_digit s \<Longrightarrow> list_all lit_char s"
  by (simp add: list_all_iff is_digit_lit)

lemma list_all_digit_not_exp: "list_all is_digit s \<Longrightarrow> list_all (\<lambda>c. \<not> is_exp_char c) s"
  by (simp add: list_all_iff is_digit_not_exp)

text \<open>The shape of \<open>fixed_digits\<close>: integer digits, and for \<open>f > 0\<close> a point and \<open>f\<close> digits.\<close>

lemma fixed_digits_shape:
  "\<exists>ip fp. fixed_digits f x = (if f = 0 then ip else ip @ CHR ''.'' # fp)
     \<and> list_all is_digit ip \<and> ip \<noteq> [] \<and> list_all is_digit fp \<and> length fp = f
     \<and> digits_val (ip @ fp) = nat \<lfloor>x * 10 ^ f + 1 / 2\<rfloor>"
proof (cases "f = 0")
  case True
  then show ?thesis
    by (intro exI[of _ "string_of_nat (nat \<lfloor>x * 10 ^ f + 1 / 2\<rfloor>)"] exI[of _ "[]"])
       (simp add: fixed_digits_def string_of_nat_digits string_of_nat_nonempty
          digits_val_string_of_nat)
next
  case False
  define m where "m = string_of_nat (nat \<lfloor>x * 10 ^ f + 1 / 2\<rfloor>)"
  define z where "z = replicate (f + 1 - length m) (CHR ''0'') @ m"
  have zd: "list_all is_digit z"
    unfolding z_def m_def
    using string_of_nat_digits[of "nat \<lfloor>x * 10 ^ f + 1 / 2\<rfloor>"]
    by (auto simp: list_all_iff is_digit_zero)
  have zl: "f + 1 \<le> length z" unfolding z_def by simp
  have zv: "digits_val z = nat \<lfloor>x * 10 ^ f + 1 / 2\<rfloor>"
    unfolding z_def by (simp add: digits_val_append digits_val_zeros m_def digits_val_string_of_nat)
  have fd: "fixed_digits f x = take (length z - f) z @ CHR ''.'' # drop (length z - f) z"
    using False by (simp add: fixed_digits_def Let_def m_def z_def)
  have 1: "list_all is_digit (take (length z - f) z)"
    using zd by (auto simp: list_all_iff dest: in_set_takeD)
  have 2: "take (length z - f) z \<noteq> []" using zl by auto
  have 3: "list_all is_digit (drop (length z - f) z)"
    using zd by (auto simp: list_all_iff dest: in_set_dropD)
  have 4: "length (drop (length z - f) z) = f" using zl by simp
  have 5: "digits_val (take (length z - f) z @ drop (length z - f) z)
           = nat \<lfloor>x * 10 ^ f + 1 / 2\<rfloor>"
    using zv by simp
  from False fd 1 2 3 4 5 show ?thesis by (simp only: if_False) blast
qed

lemma fixed_digits_lit: "list_all lit_char (fixed_digits f x)"
proof -
  obtain ip fp where s: "fixed_digits f x = (if f = 0 then ip else ip @ CHR ''.'' # fp)"
    and ip: "list_all is_digit ip" and fp: "list_all is_digit fp"
    using fixed_digits_shape[of f x] by blast
  show ?thesis
    unfolding s using list_all_digit_lit[OF ip] list_all_digit_lit[OF fp]
    by (simp add: lit_char_def)
qed

lemma fixed_digits_hd: "\<exists>c cs. fixed_digits f x = c # cs \<and> is_digit c"
proof -
  obtain ip fp where s: "fixed_digits f x = (if f = 0 then ip else ip @ CHR ''.'' # fp)"
    and ip: "list_all is_digit ip" and ne: "ip \<noteq> []"
    using fixed_digits_shape[of f x] by blast
  from ne obtain c cs where c: "ip = c # cs" by (cases ip) auto
  with ip have "is_digit c" by simp
  with s c show ?thesis by auto
qed

lemma parse_unsigned_fixed_digits:
  "parse_unsigned (fixed_digits f x) = Some (of_nat (nat \<lfloor>x * 10 ^ f + 1 / 2\<rfloor>) / 10 ^ f)"
proof -
  obtain ip fp where s: "fixed_digits f x = (if f = 0 then ip else ip @ CHR ''.'' # fp)"
    and ip: "list_all is_digit ip" and ne: "ip \<noteq> []" and fp: "list_all is_digit fp"
    and len: "length fp = f" and v: "digits_val (ip @ fp) = nat \<lfloor>x * 10 ^ f + 1 / 2\<rfloor>"
    using fixed_digits_shape[of f x] by blast
  show ?thesis
  proof (cases "f = 0")
    case True
    with len have "fp = []" by simp
    with v have v': "digits_val ip = nat \<lfloor>x * 10 ^ f + 1 / 2\<rfloor>" by simp
    have "parse_unsigned ip = parse_mantissa ip"
      by (rule parse_unsigned_plain[OF list_all_digit_not_exp[OF ip]])
    then show ?thesis
      using True s parse_mantissa_int[OF ip ne] v' by simp
  next
    case False
    have ne': "list_all (\<lambda>c. \<not> is_exp_char c) (ip @ CHR ''.'' # fp)"
      using list_all_digit_not_exp[OF ip] list_all_digit_not_exp[OF fp]
      by (simp add: is_exp_char_def)
    have "parse_unsigned (ip @ CHR ''.'' # fp) = parse_mantissa (ip @ CHR ''.'' # fp)"
      by (rule parse_unsigned_plain[OF ne'])
    also have "\<dots> = Some (of_nat (digits_val (ip @ fp)) / 10 ^ length fp)"
      using ne by (intro parse_mantissa_frac[OF ip fp]) simp
    finally show ?thesis using False s v len by simp
  qed
qed

lemma str_to_number_fixed_digits:
  "str_to_number (fixed_digits f x) = Fin (of_nat (nat \<lfloor>x * 10 ^ f + 1 / 2\<rfloor>) / 10 ^ f)"
proof -
  obtain c cs where c: "fixed_digits f x = c # cs" and d: "is_digit c"
    using fixed_digits_hd[of f x] by blast
  have lit: "list_all lit_char (c # cs)" using fixed_digits_lit[of f x] c by simp
  have ns: "c \<noteq> CHR ''-''" "c \<noteq> CHR ''+''" using is_digit_not_sign[OF d] by simp_all
  have "str_to_number (c # cs) =
        (case parse_unsigned (c # cs) of None \<Rightarrow> NaN | Some v \<Rightarrow> fin_signed False v)"
    using str_to_number_lit[OF lit] ns by (simp split: option.splits)
  then show ?thesis
    using parse_unsigned_fixed_digits[of f x] c
    by (simp add: fin_signed_def zero_signed_def)
qed

lemma str_to_number_neg_fixed_digits:
  "str_to_number (CHR ''-'' # fixed_digits f x)
   = fin_signed True (- (of_nat (nat \<lfloor>x * 10 ^ f + 1 / 2\<rfloor>) / 10 ^ f))"
proof -
  have lit: "list_all lit_char (CHR ''-'' # fixed_digits f x)"
    using fixed_digits_lit[of f x] by (simp add: lit_char_def)
  show ?thesis
    using str_to_number_lit[OF lit] parse_unsigned_fixed_digits[of f x] by simp
qed

lemma pow10_power_int: "pow10 e = power_int 10 e"
  by (simp add: pow10_def power_int_def inverse_eq_divide power_one_over)

lemma pow10_nat: "pow10 (int n) = 10 ^ n"
  by (simp add: pow10_def)

lemma pow10_pos: "0 < pow10 e"
  by (simp add: pow10_power_int)

lemma pow10_add: "pow10 (a + b) = pow10 a * pow10 b"
  by (simp add: pow10_power_int power_int_add)

lemma pow10_less: "a < b \<Longrightarrow> pow10 a < pow10 b"
  by (simp add: pow10_power_int power_int_strict_increasing)

lemma pow10_less_iff: "(pow10 a < pow10 b) = (a < b)"
proof
  assume "pow10 a < pow10 b"
  show "a < b"
  proof (rule ccontr)
    assume "\<not> a < b"
    then have "b \<le> a" by simp
    then have "pow10 b \<le> pow10 a"
      by (simp add: pow10_power_int power_int_increasing)
    with \<open>pow10 a < pow10 b\<close> show False by simp
  qed
qed (rule pow10_less)

lemma quotient_of_nat: "quotient_of (of_nat N) = (int N, 1)"
proof -
  have "quotient_of (Rat.of_int (int N)) = (int N, 1)" by (rule quotient_of_int)
  then show ?thesis by (simp add: Rat.of_int_def)
qed

text \<open>The exponent of \<open>x > 0\<close> is above \<open>x\<close>.\<close>

lemma dec_exp_upper:
  assumes "0 < x"
  shows "x < pow10 (dec_exp x)"
proof -
  obtain p d where pd: "quotient_of x = (p, d)" by (cases "quotient_of x")
  then have d: "0 < d" and x: "x = of_int p / of_int d"
    using quotient_of_denom_pos quotient_of_div by auto
  from assms x d have p: "0 < p" by (simp add: zero_less_divide_iff)
  define lp where "lp = length (string_of_nat (nat p))"
  define ld where "ld = length (string_of_nat (nat d))"
  define n where "n = int lp - int ld"
  have dx: "dec_exp x = (if x < pow10 n then n else n + 1)"
    by (simp add: dec_exp_def pd n_def lp_def ld_def Let_def)
  show ?thesis
  proof (cases "x < pow10 n")
    case True
    with dx show ?thesis by simp
  next
    case False
    have pu: "nat p < 10 ^ lp" unfolding lp_def by (rule length_string_of_nat_upper)
    have dl: "10 ^ (ld - 1) \<le> nat d"
      unfolding ld_def using d by (intro length_string_of_nat_lower) simp
    have ld1: "1 \<le> ld" unfolding ld_def using string_of_nat_nonempty[of "nat d"]
      by (cases "string_of_nat (nat d)") simp_all
    have pr: "(of_int p :: rat) < 10 ^ lp"
    proof -
      have "(of_nat (nat p) :: rat) < of_nat (10 ^ lp)" using pu by (simp only: of_nat_less_iff)
      then show ?thesis using p by simp
    qed
    have dr: "(10 :: rat) ^ (ld - 1) \<le> of_int d"
    proof -
      have "(of_nat (10 ^ (ld - 1)) :: rat) \<le> of_nat (nat d)" using dl by (simp only: of_nat_le_iff)
      then show ?thesis using d by simp
    qed
    have "x * 10 ^ (ld - 1) \<le> x * of_int d"
      using dr assms by (intro mult_left_mono) simp_all
    also have "\<dots> = of_int p" using x d by simp
    also have "\<dots> < 10 ^ lp" by (rule pr)
    finally have "x * 10 ^ (ld - 1) < 10 ^ lp" .
    then have "x < 10 ^ lp / 10 ^ (ld - 1)"
      by (simp add: pos_less_divide_eq)
    also have "\<dots> = pow10 (int lp) / pow10 (int (ld - 1))" by (simp add: pow10_nat)
    also have "\<dots> = pow10 (int lp - int (ld - 1))"
      using pow10_add[of "int lp - int (ld - 1)" "int (ld - 1)"] pow10_pos[of "int (ld - 1)"]
      by (simp add: field_simps)
    also have "int lp - int (ld - 1) = n + 1" using ld1 by (simp add: n_def)
    finally show ?thesis using dx False by simp
  qed
qed

lemma dec_exp_nat:
  assumes "0 < N"
  shows "dec_exp (of_nat N) = int (length (string_of_nat N))"
proof -
  have one: "string_of_nat (Suc 0) = [digit_char 1]"
    by (subst string_of_nat.simps) simp
  have lo: "10 ^ (length (string_of_nat N) - 1) \<le> N"
    using assms by (rule length_string_of_nat_lower)
  have ne: "1 \<le> length (string_of_nat N)"
    using string_of_nat_nonempty[of N] by (cases "string_of_nat N") simp_all
  have "(of_nat (10 ^ (length (string_of_nat N) - 1)) :: rat) \<le> of_nat N"
    using lo by (simp only: of_nat_le_iff)
  then have "pow10 (int (length (string_of_nat N)) - 1) \<le> of_nat N"
    using ne pow10_nat[of "length (string_of_nat N) - 1"] by (simp add: of_nat_diff)
  then have "\<not> (of_nat N :: rat) < pow10 (int (length (string_of_nat N)) - 1)" by simp
  then show ?thesis
    by (simp add: dec_exp_def quotient_of_nat one Let_def)
qed

lemma mult_of_one: "mult_of p (Suc 0) = 0"
  by (subst mult_of.simps) auto

lemma sig_digits_nat:
  assumes "0 < N"
  shows "sig_digits (of_nat N) = (strip10 N, int (length (string_of_nat N)))"
  using dec_exp_nat[OF assms]
  by (simp add: sig_digits_def quotient_of_nat mult_of_one Let_def)

lemma strip10_props:
  "0 < N \<Longrightarrow> 0 < strip10 N \<and> (\<exists>t. N = strip10 N * 10 ^ t
      \<and> length (string_of_nat N) = length (string_of_nat (strip10 N)) + t)"
proof (induction N rule: strip10.induct)
  case (1 n)
  show ?case
  proof (cases "n = 0 \<or> n mod 10 \<noteq> 0")
    case True
    then have "strip10 n = n" by (subst strip10.simps) simp
    with 1(2) show ?thesis by (auto intro: exI[of _ 0])
  next
    case False
    then have s: "strip10 n = strip10 (n div 10)" by (subst strip10.simps) simp
    from False 1(2) have pos: "0 < n div 10" and n10: "\<not> n < 10" by auto
    from 1(1)[OF False pos] obtain t where
      p: "0 < strip10 (n div 10)" and t: "n div 10 = strip10 (n div 10) * 10 ^ t"
      and l: "length (string_of_nat (n div 10)) = length (string_of_nat (strip10 (n div 10))) + t"
      by blast
    have "n = (n div 10) * 10" using False by auto
    with t have "n = strip10 (n div 10) * 10 ^ Suc t" by simp
    moreover have "length (string_of_nat n) = length (string_of_nat (n div 10)) + 1"
      using n10 by (subst string_of_nat.simps) simp
    ultimately show ?thesis using p l s by (auto intro!: exI[of _ "Suc t"])
  qed
qed

lemma format_number_big:
  assumes "21 < n"
  shows "\<exists>c cs. format_number s n = c # cs \<and> is_digit c \<and> list_all lit_char (c # cs)
           \<and> parse_unsigned (c # cs)
               = Some (of_nat s * pow10 (n - int (length (string_of_nat s))))"
proof -
  define ds where "ds = string_of_nat s"
  define E where "E = string_of_nat (nat (n - 1))"
  define m where "m = (if length ds = 1 then ds else take 1 ds @ CHR ''.'' # drop 1 ds)"
  have dsd: "list_all is_digit ds" unfolding ds_def by (rule string_of_nat_digits)
  have dsn: "ds \<noteq> []" unfolding ds_def by (rule string_of_nat_nonempty)
  have Ed: "list_all is_digit E" unfolding E_def by (rule string_of_nat_digits)
  have En: "E \<noteq> []" unfolding E_def by (rule string_of_nat_nonempty)
  have Ev: "int (digits_val E) = n - 1"
    unfolding E_def using assms by (simp add: digits_val_string_of_nat)
  have k1: "1 \<le> length ds" using dsn by (cases ds) simp_all
  have fn: "format_number s n = m @ CHR ''e'' # CHR ''+'' # E"
    using assms by (simp add: format_number_def Let_def ds_def[symmetric] E_def m_def)
  have td: "list_all is_digit (take 1 ds)" "list_all is_digit (drop 1 ds)"
    using dsd by (auto simp: list_all_iff dest: in_set_takeD in_set_dropD)
  have mne: "list_all (\<lambda>c. \<not> is_exp_char c) m"
    unfolding m_def
    using list_all_digit_not_exp[OF dsd] list_all_digit_not_exp[OF td(1)]
      list_all_digit_not_exp[OF td(2)]
    by (simp add: is_exp_char_def)
  have mlit: "list_all lit_char m"
    unfolding m_def
    using list_all_digit_lit[OF dsd] list_all_digit_lit[OF td(1)] list_all_digit_lit[OF td(2)]
    by (simp add: lit_char_def)
  have pm: "parse_mantissa m = Some (of_nat s / 10 ^ (length ds - 1))"
  proof (cases "length ds = 1")
    case True
    then show ?thesis
      using parse_mantissa_int[OF dsd dsn]
      by (simp add: m_def ds_def digits_val_string_of_nat)
  next
    case False
    have tn: "\<not> (take 1 ds = [] \<and> drop 1 ds = [])" using dsn by simp
    have "parse_mantissa (take 1 ds @ CHR ''.'' # drop 1 ds)
          = Some (of_nat (digits_val (take 1 ds @ drop 1 ds)) / 10 ^ length (drop 1 ds))"
      by (rule parse_mantissa_frac[OF td tn])
    then show ?thesis
      using False by (simp add: m_def ds_def digits_val_string_of_nat)
  qed
  have pe: "parse_exponent (CHR ''+'' # E) = Some (n - 1)"
    using parse_exponent_plus[OF Ed En] Ev by simp
  have pu: "parse_unsigned (m @ CHR ''e'' # CHR ''+'' # E)
            = Some (of_nat s / 10 ^ (length ds - 1) * pow10 (n - 1))"
    by (simp add: parse_unsigned_exp[OF mne] pm pe)
  have "pow10 (n - 1) = pow10 (n - int (length ds)) * pow10 (int (length ds - 1))"
    using pow10_add[of "n - int (length ds)" "int (length ds - 1)"] k1
    by (simp add: of_nat_diff)
  then have val: "of_nat s / 10 ^ (length ds - 1) * pow10 (n - 1)
                  = of_nat s * pow10 (n - int (length ds))"
    by (simp add: pow10_nat)
  from dsn obtain c cs where ccs: "ds = c # cs" by (cases ds) auto
  with dsd have cd: "is_digit c" by simp
  have hd: "\<exists>r. m = c # r" unfolding m_def using ccs by auto
  then obtain r where mr: "m = c # r" by blast
  have lit: "list_all lit_char (m @ CHR ''e'' # CHR ''+'' # E)"
    using mlit list_all_digit_lit[OF Ed] by (simp add: lit_char_def)
  show ?thesis
    using fn mr cd lit pu val by (auto simp: ds_def)
qed

lemma str_to_number_format_big:
  assumes "21 < n"
  shows "str_to_number (format_number s n)
           = Fin (of_nat s * pow10 (n - int (length (string_of_nat s))))"
    and "str_to_number (CHR ''-'' # format_number s n)
           = fin_signed True (- (of_nat s * pow10 (n - int (length (string_of_nat s)))))"
proof -
  obtain c cs where f: "format_number s n = c # cs" and d: "is_digit c"
    and lit: "list_all lit_char (c # cs)"
    and pu: "parse_unsigned (c # cs) = Some (of_nat s * pow10 (n - int (length (string_of_nat s))))"
    using format_number_big[OF assms, of s] by blast
  have ns: "c \<noteq> CHR ''-''" "c \<noteq> CHR ''+''" using is_digit_not_sign[OF d] by simp_all
  show "str_to_number (format_number s n)
           = Fin (of_nat s * pow10 (n - int (length (string_of_nat s))))"
    unfolding f using str_to_number_lit[OF lit] ns pu
    by (simp add: fin_signed_def zero_signed_def)
  have lit': "list_all lit_char (CHR ''-'' # c # cs)" using lit by (simp add: lit_char_def)
  show "str_to_number (CHR ''-'' # format_number s n)
           = fin_signed True (- (of_nat s * pow10 (n - int (length (string_of_nat s)))))"
    unfolding f using str_to_number_lit[OF lit'] pu by simp
qed

lemma sig_digits_exp_big:
  assumes "10 ^ 21 \<le> x"
  shows "21 < snd (sig_digits x)"
proof -
  have x0: "0 < x" using assms by (rule less_le_trans[rotated]) simp
  have "pow10 21 \<le> x" using assms pow10_nat[of 21] by simp
  also have "x < pow10 (dec_exp x)" by (rule dec_exp_upper[OF x0])
  finally have "21 < dec_exp x" by (simp only: pow10_less_iff)
  then show ?thesis
    by (auto simp: sig_digits_def Let_def split: prod.splits)
qed



lemma number_to_string_big_nat:
  assumes "10 ^ 21 \<le> N"
  shows "str_to_number (number_to_string (Fin (of_nat N))) = Fin (of_nat N)"
    and "str_to_number (number_to_string (Fin (- of_nat N))) = Fin (- of_nat N)"
proof -
  have N0: "0 < N" using assms by (rule less_le_trans[rotated]) simp
  have b: "(10 :: rat) ^ 21 \<le> of_nat N"
  proof -
    have "(of_nat (10 ^ 21) :: rat) \<le> of_nat N" using assms by (simp only: of_nat_le_iff)
    then show ?thesis by simp
  qed
  obtain t where sp: "0 < strip10 N" and t: "N = strip10 N * 10 ^ t"
    and l: "length (string_of_nat N) = length (string_of_nat (strip10 N)) + t"
    using strip10_props[OF N0] by blast
  have sd: "sig_digits (of_nat N) = (strip10 N, int (length (string_of_nat N)))"
    by (rule sig_digits_nat[OF N0])
  have big: "21 < int (length (string_of_nat N))"
    using sig_digits_exp_big[OF b] sd by simp
  have v: "(of_nat (strip10 N) :: rat)
             * pow10 (int (length (string_of_nat N)) - int (length (string_of_nat (strip10 N))))
           = of_nat N"
  proof -
    have "int (length (string_of_nat N)) - int (length (string_of_nat (strip10 N))) = int t"
      using l by simp
    then have "(of_nat (strip10 N) :: rat)
             * pow10 (int (length (string_of_nat N)) - int (length (string_of_nat (strip10 N))))
           = of_nat (strip10 N) * 10 ^ t" by (simp add: pow10_nat)
    also have "\<dots> = of_nat (strip10 N * 10 ^ t)" by simp
    also have "\<dots> = of_nat N" using t by simp
    finally show ?thesis .
  qed
  have nz: "(of_nat N :: rat) \<noteq> 0" using N0 by simp
  have pos: "\<not> (of_nat N :: rat) < 0" by simp
  show "str_to_number (number_to_string (Fin (of_nat N))) = Fin (of_nat N)"
    using str_to_number_format_big(1)[OF big, of "strip10 N"] v nz
    by (simp add: number_to_string_def sd)
  have neg: "- (of_nat N :: rat) < 0" using N0 by simp
  show "str_to_number (number_to_string (Fin (- of_nat N))) = Fin (- of_nat N)"
    using str_to_number_format_big(2)[OF big, of "strip10 N"] v nz neg
    by (simp add: number_to_string_def sd fin_signed_def)
qed

lemma toFixed_small:
  assumes "\<bar>q\<bar> < 10 ^ 21"
  shows "str_to_number (toFixed f (Fin q))
         = (if q < 0 then fin_signed True (- (of_nat (nat \<lfloor>- q * 10 ^ f + 1 / 2\<rfloor>) / 10 ^ f))
            else Fin (of_nat (nat \<lfloor>q * 10 ^ f + 1 / 2\<rfloor>) / 10 ^ f))"
  using assms
  by (simp add: toFixed_def str_to_number_fixed_digits str_to_number_neg_fixed_digits)

lemma toFixed_NegZero: "str_to_number (toFixed f NegZero) = Fin 0"
  by (simp add: toFixed_def str_to_number_fixed_digits)


lemma round_half_away_int: "round_half_away (of_int k) = k"
proof -
  have "\<lfloor>(of_int k :: rat) + 1 / 2\<rfloor> = k" by linarith
  moreover have "\<lfloor>- (of_int k :: rat) + 1 / 2\<rfloor> = - k" by linarith
  ultimately show ?thesis by (simp add: round_half_away_def)
qed

lemma toFixed0_exact:
  assumes "integral_from_1e21 q"
  shows "str_to_number (toFixed 0 (Fin q)) = fin_signed (q < 0) (of_int (round_half_away q))"
proof (cases "\<bar>q\<bar> < 10 ^ 21")
  case True
  show ?thesis
  proof (cases "q < 0")
    case neg: True
    then have "0 \<le> \<lfloor>- q + 1 / 2\<rfloor>" by simp
    then show ?thesis
      using neg by (simp add: toFixed_small[OF True] round_half_away_def)
  next
    case pos: False
    then have "0 \<le> \<lfloor>q + 1 / 2\<rfloor>" by simp
    then show ?thesis
      using pos by (simp add: toFixed_small[OF True] round_half_away_def fin_signed_def zero_signed_def)
  qed
next
  case False
  with assms have qi: "q = of_int \<lfloor>q\<rfloor>" by (simp add: integral_from_1e21_def)
  define k where "k = \<lfloor>q\<rfloor>"
  have qk: "q = of_int k" using qi by (simp add: k_def)
  have big: "10 ^ 21 \<le> \<bar>k\<bar>"
  proof -
    have "(of_int (10 ^ 21) :: rat) \<le> of_int \<bar>k\<bar>" using False qk by simp
    then show ?thesis by (simp only: of_int_le_iff)
  qed
  have tf: "toFixed 0 (Fin q) = number_to_string (Fin q)" using False by (simp add: toFixed_def)
  have nz: "q \<noteq> 0" using False by auto
  show ?thesis
  proof (cases "k < 0")
    case True
    define N where "N = nat (- k)"
    have N: "10 ^ 21 \<le> N" using big True by (simp add: N_def le_nat_iff)
    have qN: "q = - of_nat N" using True qk by (simp add: N_def)
    show ?thesis
      using number_to_string_big_nat(2)[OF N] True nz
      unfolding tf qN[symmetric]
      by (simp add: qk round_half_away_int fin_signed_def)
  next
    case False
    define N where "N = nat k"
    have N: "10 ^ 21 \<le> N" using big False by (simp add: N_def le_nat_iff)
    have qN: "q = of_nat N" using False qk by (simp add: N_def)
    show ?thesis
      using number_to_string_big_nat(1)[OF N] False nz
      unfolding tf qN[symmetric]
      by (simp add: qk round_half_away_int fin_signed_def)
  qed
qed

section \<open>The Money constructor and the loop of split\<close>

lemma Money_Num_finite:
  assumes "is_finite n"
  shows "Money (Num n) cur
         = Inr \<lparr>cents = str_to_number (toFixed 0 n), currency = stored_currency cur\<rparr>"
  using assms
  by (cases n)
     (simp_all add: Money_def truthy_def not_strict_zero_def validateNumber_def
        validateInfinity_def typeof_def isNaN_def isFinite_def to_number_def is_finite_def
        is_nan_def is_zero_def stored_currency_def)










lemma js_eq_fin_signed: "js_eq (fin_signed b x) (Fin x)"
  by (simp add: js_eq_def fin_signed_def zero_signed_def is_nan_def ord_key_def val_def)

lemma val_fin_signed: "val (fin_signed b x) = x"
  by (simp add: fin_signed_def zero_signed_def val_def)

lemma round_half_away_zero: "round_half_away 0 = 0"
  using round_half_away_int[of 0] by simp

lemma toFixed0_value:
  assumes "is_finite n" "integral_from_1e21 (val n)"
  shows "\<exists>b. str_to_number (toFixed 0 n) = fin_signed b (of_int (round_half_away (val n)))"
proof (cases n)
  case (Fin q)
  with assms(2) have "integral_from_1e21 q" by (simp add: val_def)
  from toFixed0_exact[OF this] show ?thesis by (auto simp: Fin val_def)
next
  case NegZero
  have "str_to_number (toFixed 0 NegZero) = fin_signed False (of_int (round_half_away 0))"
    by (simp add: toFixed_NegZero round_half_away_zero fin_signed_def zero_signed_def)
  then show ?thesis by (auto simp: NegZero val_def)
qed (use assms(1) in \<open>simp_all add: is_finite_def\<close>)


















lemma Money_Num_round:
  assumes "is_finite n" and "integral_from_1e21 (val n)"
  shows "\<exists>m. Money (Num n) cur = Inr m
           \<and> js_eq (getSubunit m) (Fin (of_int (round_half_away (val n))))
           \<and> val (getSubunit m) = of_int (round_half_away (val n))"
proof -
  obtain b where "str_to_number (toFixed 0 n) = fin_signed b (of_int (round_half_away (val n)))"
    using toFixed0_value[OF assms] by blast
  then show ?thesis
    by (simp add: Money_Num_finite[OF assms(1)] getSubunit_def js_eq_fin_signed val_fin_signed)
qed

lemma Money_MissingArg_iff:
  "(Money c cur = Inl MissingArg)
   = (c = Undefined \<or> c = Null \<or> c = Bool False \<or> c = Num NaN \<or> c = Str [])"
proof (cases c)
  case (Num n)
  then show ?thesis
    by (cases n)
       (simp_all add: Money_def truthy_def not_strict_zero_def validateNumber_def
          validateInfinity_def typeof_def isNaN_def isFinite_def to_number_def is_finite_def
          is_nan_def is_zero_def)
next
  case (Str s)
  then show ?thesis
    by (auto simp: Money_def truthy_def not_strict_zero_def validateNumber_def
          validateInfinity_def typeof_def split: sum.splits if_splits)
qed (simp_all add: Money_def truthy_def not_strict_zero_def validateNumber_def
          validateInfinity_def typeof_def)

lemma Money_Nan:
  assumes "truthy c" and "(typeof c \<noteq> T_number \<and> typeof c \<noteq> T_string) \<or> isNaN c"
  shows "Money c cur = Inl (Nan c)"
  using assms by (auto simp: Money_def validateNumber_def)





section \<open>The american field of Odds\<close>




















lemma validateF_iff:
  "(validateF (Str s) = Inr ())
   = (length (split_on (CHR ''/'') s) = 2
      \<and> \<not> is_nan (part_number (split_on (CHR ''/'') s) 0)
      \<and> \<not> is_nan (part_number (split_on (CHR ''/'') s) 1))"
  by (simp add: validateF_def Let_def)

section \<open>Properties\<close>

subsection \<open>Evaluations of the constructors and of split\<close>

text \<open>
  C3. The Odds constructor produces the four representative triples:
  \<^verbatim>\<open>Odds(3.75,'d')\<close> is \<^verbatim>\<open>{d:'3.75', f:'11/4', a:'+275'}\<close>, \<^verbatim>\<open>Odds('1/5','f')\<close> is
  \<^verbatim>\<open>{d:'1.20', f:'1/5', a:'-500'}\<close>, \<^verbatim>\<open>Odds('+125','a')\<close> is
  \<^verbatim>\<open>{d:'2.25', f:'5/4', a:'+125'}\<close> and \<^verbatim>\<open>Odds(1,'d')\<close> is
  \<^verbatim>\<open>{d:'1.00', f:'0/1', a:'-'}\<close>.
\<close>

theorem Odds_representative_triples:
  "Odds (Num (Fin 3.75)) (Some ''d'')
     = Inr \<lparr>odds_d = ''3.75'', odds_f = Some ''11/4'', odds_a = ''+275''\<rparr>
   \<and> Odds (Str ''1/5'') (Some ''f'')
     = Inr \<lparr>odds_d = ''1.20'', odds_f = Some ''1/5'', odds_a = ''-500''\<rparr>
   \<and> Odds (Str ''+125'') (Some ''a'')
     = Inr \<lparr>odds_d = ''2.25'', odds_f = Some ''5/4'', odds_a = ''+125''\<rparr>
   \<and> Odds (Num (Fin 1)) (Some ''d'')
     = Inr \<lparr>odds_d = ''1.00'', odds_f = Some ''0/1'', odds_a = ''-''\<rparr>"
  by code_simp

text \<open>
  C1. The subunit amounts returned by \<^verbatim>\<open>split\<close> for portions that sum to 100 sum to the
  amount that was split. The code does not do this: \<^verbatim>\<open>new Money(10).split([33, 33, 34])\<close>
  passes the sum check and returns three instances of 3 subunits, 9 in all. Each share is
  rounded on its own, a share is clamped only when it exceeds what is left, and what is
  left after the last portion is dropped.
\<close>

theorem split_sum_falls_short:
  "Money (Num (Fin 10)) None = Inr \<lparr>cents = Fin 10, currency = ''USD''\<rparr>
   \<and> js_eq (foldl js_add (Fin 0) [Fin 33, Fin 33, Fin 34]) (Fin 100)
   \<and> split_money \<lparr>cents = Fin 10, currency = ''USD''\<rparr> (Some [Fin 33, Fin 33, Fin 34])
     = Inr [\<lparr>cents = Fin 3, currency = ''USD''\<rparr>, \<lparr>cents = Fin 3, currency = ''USD''\<rparr>,
            \<lparr>cents = Fin 3, currency = ''USD''\<rparr>]
   \<and> foldl js_add (Fin 0)
        (map getSubunit [\<lparr>cents = Fin 3, currency = ''USD''\<rparr>, \<lparr>cents = Fin 3, currency = ''USD''\<rparr>,
            \<lparr>cents = Fin 3, currency = ''USD''\<rparr>]) = Fin 9
   \<and> \<not> js_eq (Fin 9) (getSubunit \<lparr>cents = Fin 10, currency = ''USD''\<rparr>)"
  by code_simp

text \<open>
  C8. A price that is neither a String nor a Number, given with the format \<^verbatim>\<open>'f'\<close> or
  \<^verbatim>\<open>'a'\<close>, fails with InvalidPrice. The code does not do this: the constructor passes
  \<^verbatim>\<open>price.toString()\<close> to \<^verbatim>\<open>validateF\<close> and \<^verbatim>\<open>validateA\<close>, so their \<^verbatim>\<open>typeof\<close>
  test never fires. \<^verbatim>\<open>null\<close> and \<^verbatim>\<open>undefined\<close> raise the TypeError of the method call,
  and a boolean is rejected as the string \<^verbatim>\<open>'true'\<close> or \<^verbatim>\<open>'false'\<close> with
  InvalidFraction or InvalidAmerican. Given the values themselves, the two validators
  do answer InvalidPrice.
\<close>

theorem Odds_non_string_price_not_InvalidPrice:
  "Odds Null (Some ''f'') = Inl NoToString
   \<and> Odds Undefined (Some ''f'') = Inl NoToString
   \<and> Odds Null (Some ''a'') = Inl NoToString
   \<and> Odds Undefined (Some ''a'') = Inl NoToString
   \<and> Odds (Bool False) (Some ''f'') = Inl (InvalidFraction (Str ''false''))
   \<and> Odds (Bool True) (Some ''f'') = Inl (InvalidFraction (Str ''true''))
   \<and> Odds (Bool False) (Some ''a'') = Inl (InvalidAmerican (Str ''false''))
   \<and> Odds (Bool True) (Some ''a'') = Inl (InvalidAmerican (Str ''true''))
   \<and> validateF Null = Inl (InvalidPrice Null)
   \<and> validateF (Bool False) = Inl (InvalidPrice (Bool False))
   \<and> validateA Undefined = Inl (InvalidPrice Undefined)
   \<and> validateA (Bool True) = Inl (InvalidPrice (Bool True))"
  by code_simp



subsection \<open>The stored amount\<close>

text \<open>
  C7. For every finite Number given as \<^verbatim>\<open>subunits\<close>, the constructor accepts it and
  \<^verbatim>\<open>getSubunit()\<close> is that Number rounded to the nearest integer, a tie away from zero;
  so the stored amount is integral. (A Number of magnitude \<open>10\<^sup>2\<^sup>1\<close> or more is an integer
  already, and is stored as it is.)
\<close>

theorem Money_stores_round_half_away:
  assumes "is_finite n" and "integral_from_1e21 (val n)"
  shows "\<exists>m. Money (Num n) cur = Inr m
           \<and> js_eq (getSubunit m) (Fin (of_int (round_half_away (val n))))
           \<and> val (getSubunit m) = of_int (round_half_away (val n))"
  using Money_Num_round[OF assms] .

theorem Money_stores_round_half_away_witness:
  "is_finite (Fin 25501.5) \<and> integral_from_1e21 (val (Fin 25501.5))
   \<and> (\<exists>m. Money (Num (Fin 25501.5)) (Some ''usd'') = Inr m
           \<and> js_eq (getSubunit m) (Fin (of_int (round_half_away (val (Fin 25501.5)))))
           \<and> val (getSubunit m) = of_int (round_half_away (val (Fin 25501.5))))
   \<and> round_half_away (val (Fin 25501.5)) = 25502
   \<and> round_half_away (val (Fin (- 2.5))) = - 3"
proof -
  have 1: "is_finite (Fin 25501.5)" by code_simp
  have 2: "integral_from_1e21 (val (Fin 25501.5))" by code_simp
  have 3: "round_half_away (val (Fin 25501.5)) = 25502" by code_simp
  have 4: "round_half_away (val (Fin (- 2.5))) = - 3" by code_simp
  from Money_stores_round_half_away[OF 1 2, of "Some ''usd''"] 1 2 3 4 show ?thesis by blast
qed



subsection \<open>Errors of the Money constructor and of fromUnit\<close>

text \<open>
  C5, as amended. The constructor fails with MissingArg exactly for \<^verbatim>\<open>undefined\<close>,
  \<^verbatim>\<open>null\<close> and the other falsy values that are not zero: \<^verbatim>\<open>false\<close>, \<^verbatim>\<open>NaN\<close> and the
  empty string. It fails with the Nan error for every truthy argument that is neither a
  Number nor a String (\<^verbatim>\<open>true\<close>, an object) or that is a String converting to NaN. Zero is
  accepted.
\<close>

theorem Money_argument_errors:
  "((Money c cur = Inl MissingArg)
      = (c = Undefined \<or> c = Null \<or> c = Bool False \<or> c = Num NaN \<or> c = Str []))
   \<and> (truthy c \<and> ((typeof c \<noteq> T_number \<and> typeof c \<noteq> T_string) \<or> isNaN c)
        \<longrightarrow> Money c cur = Inl (Nan c))
   \<and> (\<exists>m. Money (Num (Fin 0)) cur = Inr m \<and> getSubunit m = Fin 0)"
proof -
  have z: "is_finite (Fin 0)" by (simp add: is_finite_def)
  have "str_to_number (toFixed 0 (Fin 0)) = Fin 0"
    using toFixed_small[of 0 0] by simp
  then have 3: "\<exists>m. Money (Num (Fin 0)) cur = Inr m \<and> getSubunit m = Fin 0"
    by (simp add: Money_Num_finite[OF z] getSubunit_def)
  show ?thesis using Money_MissingArg_iff[of c cur] Money_Nan[of c cur] 3 by blast
qed

theorem Money_argument_errors_witness:
  "truthy (Str ''ten'')
   \<and> isNaN (Str ''ten'')
   \<and> Money (Str ''ten'') None = Inl (Nan (Str ''ten''))
   \<and> Money (Bool True) None = Inl (Nan (Bool True))
   \<and> Money (Obj ''[object Object]'') None = Inl (Nan (Obj ''[object Object]''))"
proof -
  have 1: "truthy (Str ''ten'')" by code_simp
  have 2: "isNaN (Str ''ten'')" by code_simp
  have 3: "truthy (Bool True)" by code_simp
  have 4: "typeof (Bool True) \<noteq> T_number \<and> typeof (Bool True) \<noteq> T_string" by code_simp
  have 5: "truthy (Obj ''[object Object]'')" by code_simp
  have 6: "typeof (Obj ''[object Object]'') \<noteq> T_number \<and> typeof (Obj ''[object Object]'') \<noteq> T_string"
    by code_simp
  from Money_argument_errors[of "Str ''ten''" None] Money_argument_errors[of "Bool True" None]
    Money_argument_errors[of "Obj ''[object Object]''" None] 1 2 3 4 5 6
  show ?thesis by blast
qed

text \<open>
  \<^verbatim>\<open>NaN\<close> is present and cannot be converted to a number, and yet it is reported as a
  missing argument: the first test of the constructor stops every falsy value but zero.
\<close>

theorem Money_NaN_is_MissingArg:
  "Money (Num NaN) None = Inl MissingArg
   \<and> Money (Bool False) None = Inl MissingArg
   \<and> Money (Str []) None = Inl MissingArg
   \<and> Money (Num NaN) None \<noteq> Inl (Nan (Num NaN))"
  by code_simp




subsection \<open>The fields of Odds\<close>




text \<open>
  C10. Construction from a fractional price checks the shape of the string only, both
  parts numeric, and no sign: \<^verbatim>\<open>new Odds('-3/2', 'f')\<close> succeeds with the decimal field
  \<^verbatim>\<open>'-0.50'\<close>, a price that is not above 0 and that construction from a decimal price
  rejects with the Negative error.
\<close>

theorem fractional_price_sign_unchecked:
  "Odds (Str ''-3/2'') (Some ''f'')
     = Inr \<lparr>odds_d = ''-0.50'', odds_f = Some ''-3/2'', odds_a = ''67''\<rparr>
   \<and> js_le (str_to_number ''-0.50'') (Fin 0)
   \<and> Odds (Str ''-0.50'') (Some ''d'') = Inl Negative
   \<and> Odds (Num (Fin (- 0.5))) (Some ''d'') = Inl Negative
   \<and> ((\<exists>r. Odds (Str s) (Some ''f'') = Inr r)
        = (length (split_on (CHR ''/'') s) = 2
           \<and> \<not> is_nan (part_number (split_on (CHR ''/'') s) 0)
           \<and> \<not> is_nan (part_number (split_on (CHR ''/'') s) 1)))"
proof -
  have 1: "Odds (Str ''-3/2'') (Some ''f'')
     = Inr \<lparr>odds_d = ''-0.50'', odds_f = Some ''-3/2'', odds_a = ''67''\<rparr>" by code_simp
  have 2: "js_le (str_to_number ''-0.50'') (Fin 0)" by code_simp
  have 3: "Odds (Str ''-0.50'') (Some ''d'') = Inl Negative" by code_simp
  have 4: "Odds (Num (Fin (- 0.5))) (Some ''d'') = Inl Negative" by code_simp
  have f: "lower_charAt0 ''f'' = ''f''" by code_simp
  have 5: "(\<exists>r. Odds (Str s) (Some ''f'') = Inr r) = (validateF (Str s) = Inr ())"
    by (cases "validateF (Str s)") (simp_all add: Odds_def toString_def f)
  show ?thesis using 1 2 3 4 5 validateF_iff[of s] by simp
qed

end
